theory Spec2Isabelle
  imports Main
begin

section \<open>The login page of the web console (web/src/app/login/page.js)\<close>

subsection \<open>Form values and the validation schema\<close>

text \<open>
  The object react-hook-form keeps for the four inputs, and that it hands to the submit
  handler: \<^verbatim>\<open>{ grant_type, client_id, client_secret, scope }\<close>. Every value is the text
  of a TextField, a string.
\<close>

record credentials =
  grant_type :: string
  client_id :: string
  client_secret :: string
  scope :: string

text \<open>The names of the four Controllers, in the order of the schema.\<close>

datatype field = GrantType | ClientId | ClientSecret | Scope

definition defaultValues :: credentials where
  "defaultValues =
     \<lparr>grant_type = ''client_credentials'', client_id = '''', client_secret = '''', scope = ''''\<rparr>"

fun field_name :: "field \<Rightarrow> string" where
  "field_name GrantType = ''grant_type''"
| "field_name ClientId = ''client_id''"
| "field_name ClientSecret = ''client_secret''"
| "field_name Scope = ''scope''"

fun field_value :: "field \<Rightarrow> credentials \<Rightarrow> string" where
  "field_value GrantType c = grant_type c"
| "field_value ClientId c = client_id c"
| "field_value ClientSecret c = client_secret c"
| "field_value Scope c = scope c"

fun set_field_value :: "field \<Rightarrow> string \<Rightarrow> credentials \<Rightarrow> credentials" where
  "set_field_value GrantType v c = c\<lparr>grant_type := v\<rparr>"
| "set_field_value ClientId v c = c\<lparr>client_id := v\<rparr>"
| "set_field_value ClientSecret v c = c\<lparr>client_secret := v\<rparr>"
| "set_field_value Scope v c = c\<lparr>scope := v\<rparr>"

text \<open>
  Only the TextField of \<^verbatim>\<open>grant_type\<close> carries the attribute \<^verbatim>\<open>disabled\<close>: a disabled
  input takes no user input, so its \<^verbatim>\<open>onChange\<close> never fires.
\<close>

fun disabled :: "field \<Rightarrow> bool" where
  "disabled GrantType = True"
| "disabled ClientId = False"
| "disabled ClientSecret = False"
| "disabled Scope = False"

text \<open>
  The errors object of the form: the failing fields with their messages, in the order of
  the schema (a JavaScript object keeps the order in which its keys were added).
\<close>

type_synonym field_errors = "(field \<times> string) list"

text \<open>
  \<^verbatim>\<open>yup.string().required()\<close> on the text of an input: the empty string fails, with yup's
  message for a required field; any other string passes (yup does not trim).
\<close>

definition required :: "field \<Rightarrow> credentials \<Rightarrow> field_errors" where
  "required f c =
     (if field_value f c = '''' then [(f, field_name f @ '' is a required field'')] else [])"

text \<open>
  \<^verbatim>\<open>schema\<close>, run through \<^verbatim>\<open>yupResolver\<close>, which validates every field and collects all
  failures rather than stopping at the first.
\<close>

definition schema :: "credentials \<Rightarrow> field_errors" where
  "schema c = required GrantType c @ required ClientId c @ required ClientSecret c @ required Scope c"

subsection \<open>The auth store and the host's timers\<close>

record session =
  accessToken :: string
  expiresIn :: nat

text \<open>
  \<^verbatim>\<open>state.auth\<close>. The page reads \<^verbatim>\<open>store.intervalId\<close>: the handle \<^verbatim>\<open>setInterval\<close> returned,
  or null.
\<close>

record auth_store =
  authSession :: "session option"
  intervalId :: "nat option"

text \<open>
  The three action creators the page imports from \<^verbatim>\<open>@/lib/store/auth\<close>. Calling one builds
  an action and does nothing else; an action reaches the store only through \<^verbatim>\<open>dispatch\<close>.
  (\<^verbatim>\<open>loginAction\<close> also receives the router, which plays no part here.)
\<close>

datatype action = loginAction credentials | setIntervalIdAction | clearIntervalId

text \<open>
  Everything the page can read or change: the auth store, the interval handles that are
  live in the host with the next handle \<^verbatim>\<open>setInterval\<close> will return, the credential
  requests sent to the authentication endpoint, the actions dispatched so far, the form
  (its values, the default values react-hook-form compares them with, and its errors) and
  the lines written with \<^verbatim>\<open>console.error\<close>.
\<close>

record world =
  auth :: auth_store
  timers :: "nat list"
  next_handle :: nat
  requests :: "credentials list"
  dispatched :: "action list"
  form :: credentials
  defaults :: credentials
  errors :: field_errors
  console :: "(string \<times> field_errors) list"

text \<open>The authentication endpoint, an external collaborator: a session, or a refusal.\<close>

type_synonym endpoint = "credentials \<Rightarrow> session option"

text \<open>
  Modelled from the spec: the Token Exchange Client behind \<^verbatim>\<open>loginAction\<close>, whose code
  (\<^verbatim>\<open>@/lib/store/auth\<close>) is not among the sources. "exchange(request) -> Session |
  AuthError": one request to the endpoint per call, no retry; a failure is signalled to
  the caller as a value, not thrown.
\<close>

definition exchange :: "endpoint \<Rightarrow> credentials \<Rightarrow> world \<Rightarrow> session option \<times> world" where
  "exchange ep c w = (ep c, w\<lparr>requests := requests w @ [c]\<rparr>)"

text \<open>
  Modelled from the spec: the thunk of \<^verbatim>\<open>loginAction\<close> (not among the sources). The
  session is "created on successful token exchange"; on an AuthError "the session is never
  created".
\<close>

definition login_thunk :: "endpoint \<Rightarrow> credentials \<Rightarrow> world \<Rightarrow> world" where
  "login_thunk ep c w =
     (case exchange ep c w of
        (Some s, w') \<Rightarrow> w'\<lparr>auth := (auth w')\<lparr>authSession := Some s\<rparr>\<rparr>
      | (None, w') \<Rightarrow> w')"

text \<open>
  Modelled from the spec: the reducer of \<^verbatim>\<open>clearIntervalId\<close> (not among the sources),
  the scheduler's "clear": Active to Idle by cancelling the one handle; "calling clear when
  already Idle is a no-op".
\<close>

definition clear_timer :: "world \<Rightarrow> world" where
  "clear_timer w =
     (case intervalId (auth w) of
        None \<Rightarrow> w
      | Some h \<Rightarrow> w\<lparr>timers := removeAll h (timers w), auth := (auth w)\<lparr>intervalId := None\<rparr>\<rparr>)"

text \<open>
  Modelled from the spec: the thunk of \<^verbatim>\<open>setIntervalIdAction\<close> (not among the sources),
  the scheduler's start. "Transition Idle to Active: triggered by successful token
  exchange; schedules a single recurring ... timer": with no session, which only a
  successful exchange creates, nothing is armed. "Any pre-existing handle is cancelled
  before a new one is created": a stored handle is cleared first. The new handle is kept
  in the store.
\<close>

definition start_scheduler :: "world \<Rightarrow> world" where
  "start_scheduler w =
     (case authSession (auth w) of
        None \<Rightarrow> w
      | Some s \<Rightarrow>
          (let w' = clear_timer w; h = next_handle w' in
           w'\<lparr>timers := timers w' @ [h], next_handle := h + 1,
              auth := (auth w')\<lparr>intervalId := Some h\<rparr>\<rparr>))"

text \<open>
  Modelled from the spec: logout (not among the sources). "Transition Active to Idle:
  explicit cancellation (logout)"; the session is "destroyed on logout".
\<close>

definition logout :: "world \<Rightarrow> world" where
  "logout w = (let w' = clear_timer w in w'\<lparr>auth := (auth w')\<lparr>authSession := None\<rparr>\<rparr>)"

text \<open>
  Modelled from the spec: a firing of the timer (not among the sources), with the answer
  of the endpoint to the new exchange. Idle has no timer, so nothing fires. "On success,
  timer is rescheduled" and the token replaced; "a single refresh failure transitions to
  Idle", and the session is destroyed.
\<close>

definition refresh :: "session option \<Rightarrow> world \<Rightarrow> world" where
  "refresh answer w =
     (case intervalId (auth w) of
        None \<Rightarrow> w
      | Some h \<Rightarrow>
          (case answer of
             Some s \<Rightarrow> start_scheduler (w\<lparr>auth := (auth w)\<lparr>authSession := Some s\<rparr>\<rparr>)
           | None \<Rightarrow> logout w))"

fun reducer :: "endpoint \<Rightarrow> action \<Rightarrow> world \<Rightarrow> world" where
  "reducer ep (loginAction c) w = login_thunk ep c w"
| "reducer ep setIntervalIdAction w = start_scheduler w"
| "reducer ep clearIntervalId w = clear_timer w"

text \<open>
  \<^verbatim>\<open>await dispatch(action)\<close>: the action is handed to the store, which runs it to its end.
\<close>

definition dispatch :: "endpoint \<Rightarrow> action \<Rightarrow> world \<Rightarrow> world" where
  "dispatch ep a w = reducer ep a (w\<lparr>dispatched := dispatched w @ [a]\<rparr>)"

subsection \<open>LoginPage\<close>

text \<open>
  JavaScript's truth value of \<^verbatim>\<open>store.intervalId\<close>: null is false, and so is the number 0.
\<close>

definition truthy :: "nat option \<Rightarrow> bool" where
  "truthy v = (case v of None \<Rightarrow> False | Some n \<Rightarrow> 0 < n)"

text \<open>
  \<^verbatim>\<open>useEffect(() => { if (store.intervalId) { clearIntervalId() } }, [store.intervalId])\<close>.
  The call builds the action; its result is dropped, and nothing is dispatched.
\<close>

definition clearIntervalId_effect :: "world \<Rightarrow> world" where
  "clearIntervalId_effect w =
     (if truthy (intervalId (auth w)) then (let _ = clearIntervalId in w) else w)"

text \<open>
  \<^verbatim>\<open>reset({ ...data })\<close> of react-hook-form: the given values become the values of the form
  and its default values, and the errors are cleared.
\<close>

definition reset :: "credentials \<Rightarrow> world \<Rightarrow> world" where
  "reset vals w = w\<lparr>form := vals, defaults := vals, errors := []\<rparr>"

text \<open>
  \<^verbatim>\<open>onSubmit\<close>: the two dispatches one after the other, neither result looked at, then the
  reset.
\<close>

definition onSubmit :: "endpoint \<Rightarrow> credentials \<Rightarrow> world \<Rightarrow> world" where
  "onSubmit ep data w =
     (let w1 = dispatch ep (loginAction data) w;
          w2 = dispatch ep setIntervalIdAction w1
      in reset data w2)"

text \<open>\<^verbatim>\<open>onError\<close>: \<^verbatim>\<open>console.error('fields error', errors)\<close>.\<close>

definition onError :: "field_errors \<Rightarrow> world \<Rightarrow> world" where
  "onError errs w = w\<lparr>console := console w @ [(''fields error'', errs)]\<rparr>"

text \<open>
  \<^verbatim>\<open>handleSubmit(onSubmit, onError)\<close> of react-hook-form: the resolver runs on the values of
  the form; its errors become the errors of the form; with no error the first handler
  gets the values, otherwise the second gets the errors.
\<close>

definition handleSubmit :: "endpoint \<Rightarrow> world \<Rightarrow> world" where
  "handleSubmit ep w =
     (let data = form w; errs = schema data in
      if errs = [] then onSubmit ep data (w\<lparr>errors := []\<rparr>)
      else onError errs (w\<lparr>errors := errs\<rparr>))"

text \<open>
  The \<^verbatim>\<open>FormHelperText\<close> under a field: rendered when \<^verbatim>\<open>errors.<field>\<close> is set, showing its
  message.
\<close>

definition helper_text :: "field \<Rightarrow> world \<Rightarrow> string option" where
  "helper_text f w = map_of (errors w) f"

text \<open>
  What happens to the page: it is mounted (\<^verbatim>\<open>useForm\<close> starts from a copy of
  \<^verbatim>\<open>defaultValues\<close>), the user types into a field (\<^verbatim>\<open>mode: 'onChange'\<close> validates again and
  refreshes the error of that field), the user presses Login. The effect runs after the
  mount and after every render in which \<^verbatim>\<open>store.intervalId\<close> has changed; only a submission
  can change it.
\<close>

datatype event = Mount | Change field string | Submit

definition change :: "field \<Rightarrow> string \<Rightarrow> world \<Rightarrow> world" where
  "change f v w =
     (if disabled f then w
      else let vals = set_field_value f v (form w) in
        w\<lparr>form := vals, errors := filter (\<lambda>e. fst e \<noteq> f) (errors w) @ required f vals\<rparr>)"

fun step :: "endpoint \<Rightarrow> event \<Rightarrow> world \<Rightarrow> world" where
  "step ep Mount w =
     clearIntervalId_effect (w\<lparr>form := defaultValues, defaults := defaultValues, errors := []\<rparr>)"
| "step ep (Change f v) w = change f v w"
| "step ep Submit w =
     (let w' = handleSubmit ep w in
      if intervalId (auth w') = intervalId (auth w) then w' else clearIntervalId_effect w')"

fun run :: "endpoint \<Rightarrow> event list \<Rightarrow> world \<Rightarrow> world" where
  "run ep [] w = w"
| "run ep (e # es) w = run ep es (step ep e w)"

text \<open>
  The events of a session: what happens on the login page (a login is its \<^verbatim>\<open>Submit\<close>),
  a logout, and a firing of the timer whose exchange succeeds or fails.
\<close>

datatype session_event = OnPage event | Logout | RefreshSuccess session | RefreshFailure

fun session_step :: "endpoint \<Rightarrow> session_event \<Rightarrow> world \<Rightarrow> world" where
  "session_step ep (OnPage e) w = step ep e w"
| "session_step ep Logout w = logout w"
| "session_step ep (RefreshSuccess s) w = refresh (Some s) w"
| "session_step ep RefreshFailure w = refresh None w"

fun session_run :: "endpoint \<Rightarrow> session_event list \<Rightarrow> world \<Rightarrow> world" where
  "session_run ep [] w = w"
| "session_run ep (e # es) w = session_run ep es (session_step ep e w)"

text \<open>The world when the console is first loaded: no session, no timer, nothing sent.\<close>

definition initial :: world where
  "initial =
     \<lparr>auth = \<lparr>authSession = None, intervalId = None\<rparr>, timers = [], next_handle = 1,
      requests = [], dispatched = [], form = defaultValues, defaults = defaultValues,
      errors = [], console = []\<rparr>"

subsection \<open>Worlds used as concrete inputs\<close>

text \<open>An endpoint that accepts every request, and one that refuses every request.\<close>

definition accepting :: endpoint where
  "accepting c = Some \<lparr>accessToken = ''t'', expiresIn = 3000\<rparr>"

definition refusing :: endpoint where
  "refusing c = None"

text \<open>The keystrokes that fill the three open fields.\<close>

definition fill :: "event list" where
  "fill = [Change ClientId ''a'', Change ClientSecret ''b'', Change Scope ''c'']"

text \<open>The page after a mount and those keystrokes, and after a first accepted login.\<close>

definition filled :: world where
  "filled = run refusing (Mount # fill) initial"

definition logged_in :: world where
  "logged_in = handleSubmit accepting filled"

section \<open>Properties\<close>

lemmas page_defs = clearIntervalId_effect_def change_def handleSubmit_def schema_def required_def
  onSubmit_def onError_def reset_def dispatch_def login_thunk_def exchange_def
  start_scheduler_def clear_timer_def truthy_def Let_def

lemmas input_defs = initial_def defaultValues_def fill_def accepting_def refusing_def

subsection \<open>Helper facts\<close>

lemma schema_empty_iff:
  "schema c = [] \<longleftrightarrow>
     grant_type c \<noteq> '''' \<and> client_id c \<noteq> '''' \<and> client_secret c \<noteq> '''' \<and> scope c \<noteq> ''''"
  by (simp add: schema_def required_def)

lemma map_of_schema:
  "map_of (schema c) f =
     (if field_value f c = '''' then Some (field_name f @ '' is a required field'') else None)"
  by (cases f) (simp_all add: schema_def required_def)

lemma effect_identity: "clearIntervalId_effect w = w"
  by (simp add: clearIntervalId_effect_def)

lemma handleSubmit_form: "form (handleSubmit ep w) = form w"
  by (simp add: handleSubmit_def onSubmit_def onError_def reset_def Let_def)

lemma handleSubmit_dispatched:
  "dispatched (handleSubmit ep w) =
     (if schema (form w) = [] then dispatched w @ [loginAction (form w), setIntervalIdAction]
      else dispatched w)"
  by (simp add: handleSubmit_def onSubmit_def onError_def reset_def dispatch_def
      login_thunk_def exchange_def start_scheduler_def clear_timer_def Let_def
      split: option.splits)

lemma handleSubmit_requests:
  "requests (handleSubmit ep w) =
     (if schema (form w) = [] then requests w @ [form w] else requests w)"
  by (simp add: handleSubmit_def onSubmit_def onError_def reset_def dispatch_def
      login_thunk_def exchange_def start_scheduler_def clear_timer_def Let_def
      split: option.splits)

lemma change_grant_type: "grant_type (form (change f v w)) = grant_type (form w)"
  by (cases f) (simp_all add: change_def Let_def)

lemma change_requests: "requests (change f v w) = requests w"
  by (simp add: change_def Let_def)

lemma change_dispatched: "dispatched (change f v w) = dispatched w"
  by (simp add: change_def Let_def)

lemma filled_eq:
  "filled =
     initial\<lparr>form := \<lparr>grant_type = ''client_credentials'', client_id = ''a'',
                       client_secret = ''b'', scope = ''c''\<rparr>\<rparr>"
  by (simp add: filled_def input_defs page_defs)

lemma filled_valid: "schema (form filled) = []"
  by (simp add: filled_eq initial_def schema_def required_def)

text \<open>
  The grant type of the form, of every request sent and of every login dispatched is the
  fixed one: each event keeps that so.
\<close>

lemma step_grant_type:
  assumes "grant_type (form w) = ''client_credentials''"
  shows "grant_type (form (step ep e w)) = ''client_credentials''"
  using assms
  by (cases e)
    (simp_all add: effect_identity handleSubmit_form change_grant_type defaultValues_def Let_def)

lemma step_requests:
  assumes "grant_type (form w) = ''client_credentials''"
    and "\<forall>c \<in> set (requests w). grant_type c = ''client_credentials''"
  shows "\<forall>c \<in> set (requests (step ep e w)). grant_type c = ''client_credentials''"
  using assms
  by (cases e) (simp_all add: effect_identity handleSubmit_requests change_requests Let_def)

lemma step_dispatched:
  assumes "grant_type (form w) = ''client_credentials''"
    and "\<forall>c. loginAction c \<in> set (dispatched w) \<longrightarrow> grant_type c = ''client_credentials''"
  shows "\<forall>c. loginAction c \<in> set (dispatched (step ep e w))
           \<longrightarrow> grant_type c = ''client_credentials''"
  using assms
  by (cases e) (auto simp add: effect_identity handleSubmit_dispatched change_dispatched Let_def)

lemma run_grant_type:
  assumes "grant_type (form w) = ''client_credentials''"
    and "\<forall>c \<in> set (requests w). grant_type c = ''client_credentials''"
    and "\<forall>c. loginAction c \<in> set (dispatched w) \<longrightarrow> grant_type c = ''client_credentials''"
  shows "grant_type (form (run ep es w)) = ''client_credentials''
       \<and> (\<forall>c \<in> set (requests (run ep es w)). grant_type c = ''client_credentials'')
       \<and> (\<forall>c. loginAction c \<in> set (dispatched (run ep es w))
             \<longrightarrow> grant_type c = ''client_credentials'')"
  using assms
proof (induction es arbitrary: w)
  case Nil
  then show ?case by simp
next
  case (Cons e es)
  have f: "grant_type (form (step ep e w)) = ''client_credentials''"
    using Cons.prems(1) by (rule step_grant_type)
  have r: "\<forall>c \<in> set (requests (step ep e w)). grant_type c = ''client_credentials''"
    using Cons.prems(1,2) by (rule step_requests)
  have d: "\<forall>c. loginAction c \<in> set (dispatched (step ep e w))
             \<longrightarrow> grant_type c = ''client_credentials''"
    using Cons.prems(1,3) by (rule step_dispatched)
  show ?case
    unfolding run.simps by (rule Cons.IH [OF f r d])
qed

text \<open>
  The scheduler of the store: the live timers are exactly the handle in the store, and an
  Idle store has no session. Each operation of the store and each event keeps that so.
\<close>

lemma clear_timer_one_timer:
  assumes "timers w = (case intervalId (auth w) of None \<Rightarrow> [] | Some h \<Rightarrow> [h])"
  shows "timers (clear_timer w) = [] \<and> intervalId (auth (clear_timer w)) = None"
  using assms by (simp add: clear_timer_def split: option.splits)

lemma start_scheduler_one_timer:
  assumes "timers w = (case intervalId (auth w) of None \<Rightarrow> [] | Some h \<Rightarrow> [h])"
  shows "timers (start_scheduler w)
           = (case intervalId (auth (start_scheduler w)) of None \<Rightarrow> [] | Some h \<Rightarrow> [h])"
proof (cases "authSession (auth w)")
  case None
  with assms show ?thesis by (simp add: start_scheduler_def)
next
  case (Some s)
  with clear_timer_one_timer [OF assms] show ?thesis
    by (simp add: start_scheduler_def Let_def clear_timer_def split: option.splits)
qed

lemma logout_one_timer:
  assumes "timers w = (case intervalId (auth w) of None \<Rightarrow> [] | Some h \<Rightarrow> [h])"
  shows "timers (logout w) = (case intervalId (auth (logout w)) of None \<Rightarrow> [] | Some h \<Rightarrow> [h])"
  using clear_timer_one_timer [OF assms] by (simp add: logout_def Let_def)

lemma refresh_one_timer:
  assumes "timers w = (case intervalId (auth w) of None \<Rightarrow> [] | Some h \<Rightarrow> [h])"
  shows "timers (refresh a w) = (case intervalId (auth (refresh a w)) of None \<Rightarrow> [] | Some h \<Rightarrow> [h])"
proof (cases "intervalId (auth w)")
  case None
  with assms show ?thesis by (simp add: refresh_def)
next
  case (Some h)
  show ?thesis
  proof (cases a)
    case None
    with Some logout_one_timer [OF assms] show ?thesis by (simp add: refresh_def)
  next
    case (Some s)
    let ?w = "w\<lparr>auth := (auth w)\<lparr>authSession := Some s\<rparr>\<rparr>"
    from assms
    have "timers ?w = (case intervalId (auth ?w) of None \<Rightarrow> [] | Some h \<Rightarrow> [h])"
      by simp
    from start_scheduler_one_timer [OF this] Some \<open>intervalId (auth w) = Some h\<close>
    show ?thesis by (simp add: refresh_def)
  qed
qed

lemma handleSubmit_one_timer:
  assumes "timers w = (case intervalId (auth w) of None \<Rightarrow> [] | Some h \<Rightarrow> [h])"
  shows "timers (handleSubmit ep w)
           = (case intervalId (auth (handleSubmit ep w)) of None \<Rightarrow> [] | Some h \<Rightarrow> [h])"
proof (cases "schema (form w) = []")
  case False
  with assms show ?thesis by (simp add: handleSubmit_def onError_def Let_def)
next
  case True
  let ?w = "dispatch ep (loginAction (form w)) (w\<lparr>errors := []\<rparr>)"
  from assms
  have "timers ?w = (case intervalId (auth ?w) of None \<Rightarrow> [] | Some h \<Rightarrow> [h])"
    by (simp add: dispatch_def login_thunk_def exchange_def split: option.splits)
  then have "timers (?w\<lparr>dispatched := dispatched ?w @ [setIntervalIdAction]\<rparr>)
           = (case intervalId (auth (?w\<lparr>dispatched := dispatched ?w @ [setIntervalIdAction]\<rparr>)) of
                None \<Rightarrow> [] | Some h \<Rightarrow> [h])"
    by simp
  from start_scheduler_one_timer [OF this] True show ?thesis
    by (simp add: handleSubmit_def onSubmit_def reset_def Let_def dispatch_def [of ep setIntervalIdAction])
qed

lemma step_one_timer:
  assumes "timers w = (case intervalId (auth w) of None \<Rightarrow> [] | Some h \<Rightarrow> [h])"
  shows "timers (step ep e w) = (case intervalId (auth (step ep e w)) of None \<Rightarrow> [] | Some h \<Rightarrow> [h])"
proof (cases e)
  case Mount
  with assms show ?thesis by (simp add: effect_identity)
next
  case (Change f v)
  with assms show ?thesis by (simp add: change_def Let_def)
next
  case Submit
  with handleSubmit_one_timer [OF assms, of ep] show ?thesis
    by (simp add: effect_identity Let_def)
qed

lemma session_step_one_timer:
  assumes "timers w = (case intervalId (auth w) of None \<Rightarrow> [] | Some h \<Rightarrow> [h])"
  shows "timers (session_step ep e w)
           = (case intervalId (auth (session_step ep e w)) of None \<Rightarrow> [] | Some h \<Rightarrow> [h])"
  using step_one_timer [OF assms] logout_one_timer [OF assms] refresh_one_timer [OF assms]
  by (cases e) simp_all

lemma session_run_one_timer:
  assumes "timers w = (case intervalId (auth w) of None \<Rightarrow> [] | Some h \<Rightarrow> [h])"
  shows "timers (session_run ep es w)
           = (case intervalId (auth (session_run ep es w)) of None \<Rightarrow> [] | Some h \<Rightarrow> [h])"
  using assms
proof (induction es arbitrary: w)
  case Nil
  then show ?case by simp
next
  case (Cons e es)
  show ?case
    unfolding session_run.simps
    by (rule Cons.IH [OF session_step_one_timer [OF Cons.prems]])
qed

lemma handleSubmit_from_idle:
  assumes "authSession (auth w) = None" and "intervalId (auth w) = None"
  shows "intervalId (auth (handleSubmit ep w))
           = (if schema (form w) = [] \<and> ep (form w) \<noteq> None then Some (next_handle w) else None)"
    and "authSession (auth (handleSubmit ep w)) = (if schema (form w) = [] then ep (form w) else None)"
    and "timers (handleSubmit ep w)
           = (if schema (form w) = [] \<and> ep (form w) \<noteq> None then timers w @ [next_handle w]
              else timers w)"
  using assms
  by (auto simp add: handleSubmit_def onSubmit_def onError_def reset_def dispatch_def
      login_thunk_def exchange_def start_scheduler_def clear_timer_def Let_def
      split: option.splits)

lemma step_idle_no_session:
  assumes "intervalId (auth w) = None \<longrightarrow> authSession (auth w) = None"
  shows "intervalId (auth (step ep e w)) = None \<longrightarrow> authSession (auth (step ep e w)) = None"
proof (cases e)
  case Mount
  with assms show ?thesis by (simp add: effect_identity)
next
  case (Change f v)
  with assms show ?thesis by (simp add: change_def Let_def)
next
  case Submit
  have "intervalId (auth (handleSubmit ep w)) = None
          \<longrightarrow> authSession (auth (handleSubmit ep w)) = None"
    using assms
    by (auto simp add: handleSubmit_def onSubmit_def onError_def reset_def dispatch_def
        login_thunk_def exchange_def start_scheduler_def clear_timer_def Let_def
        split: option.splits)
  with Submit show ?thesis by (simp add: effect_identity Let_def)
qed

lemma session_step_idle_no_session:
  assumes "intervalId (auth w) = None \<longrightarrow> authSession (auth w) = None"
  shows "intervalId (auth (session_step ep e w)) = None
           \<longrightarrow> authSession (auth (session_step ep e w)) = None"
proof (cases e)
  case (OnPage ev)
  with step_idle_no_session [OF assms, of ep ev] show ?thesis by simp
next
  case Logout
  then show ?thesis by (simp add: logout_def clear_timer_def Let_def split: option.splits)
next
  case (RefreshSuccess s)
  with assms show ?thesis
    by (auto simp add: refresh_def start_scheduler_def clear_timer_def Let_def
        split: option.splits)
next
  case RefreshFailure
  with assms show ?thesis
    by (auto simp add: refresh_def logout_def clear_timer_def Let_def split: option.splits)
qed

lemma session_run_idle_no_session:
  assumes "intervalId (auth w) = None \<longrightarrow> authSession (auth w) = None"
  shows "intervalId (auth (session_run ep es w)) = None
           \<longrightarrow> authSession (auth (session_run ep es w)) = None"
  using assms
proof (induction es arbitrary: w)
  case Nil
  then show ?case by simp
next
  case (Cons e es)
  show ?case
    unfolding session_run.simps
    by (rule Cons.IH [OF session_step_idle_no_session [OF Cons.prems]])
qed

lemma session_run_OnPage: "session_run ep (map OnPage es) w = run ep es w"
  by (induction es arbitrary: w) simp_all

lemma initial_one_timer:
  "timers initial = (case intervalId (auth initial) of None \<Rightarrow> [] | Some h \<Rightarrow> [h])"
  by (simp add: initial_def)

lemma initial_idle_no_session:
  "intervalId (auth initial) = None \<longrightarrow> authSession (auth initial) = None"
  by (simp add: initial_def)

subsection \<open>The refresh timer\<close>

text \<open>
  C1. For every sequence of logins (and whatever else happens on the login page), logouts,
  refresh successes and refresh failures, at most one refresh timer is live: the live
  timers are exactly the handle kept in the store, if there is one. A second login leaves
  one timer, the first having been cancelled before the second was created.
\<close>

theorem at_most_one_timer:
  "length (timers (session_run ep es initial)) \<le> 1
   \<and> timers (session_run ep es initial)
       = (case intervalId (auth (session_run ep es initial)) of None \<Rightarrow> [] | Some h \<Rightarrow> [h])"
proof -
  have "timers (session_run ep es initial)
          = (case intervalId (auth (session_run ep es initial)) of None \<Rightarrow> [] | Some h \<Rightarrow> [h])"
    by (rule session_run_one_timer [OF initial_one_timer])
  then show ?thesis
    by (simp split: option.splits)
qed

theorem at_most_one_timer_witness:
  "timers (session_run accepting
       (map OnPage (Mount # fill @ [Submit]) @ [RefreshSuccess \<lparr>accessToken = ''u'', expiresIn = 3000\<rparr>]
          @ map OnPage (Mount # fill @ [Submit])) initial) = [3]
   \<and> length (timers (session_run accepting
       (map OnPage (Mount # fill @ [Submit]) @ [RefreshSuccess \<lparr>accessToken = ''u'', expiresIn = 3000\<rparr>]
          @ map OnPage (Mount # fill @ [Submit])) initial)) \<le> 1"
  using at_most_one_timer [of accepting
       "map OnPage (Mount # fill @ [Submit]) @ [RefreshSuccess \<lparr>accessToken = ''u'', expiresIn = 3000\<rparr>]
          @ map OnPage (Mount # fill @ [Submit])"]
  by (simp add: input_defs page_defs refresh_def)

text \<open>
  C2. From Idle the scheduler becomes Active only through a login whose exchange
  succeeded: in every reachable Idle world, an event that leaves a handle in the store is
  a submission that passed validation and that the endpoint accepted, and it created the
  session. When the endpoint refuses the login, no session is created and no timer is
  scheduled.
\<close>

theorem idle_to_active_needs_success:
  assumes "w = session_run ep es initial" and "intervalId (auth w) = None"
  shows "(intervalId (auth (session_step ep e w)) \<noteq> None
            \<longrightarrow> e = OnPage Submit \<and> schema (form w) = [] \<and> ep (form w) \<noteq> None
                \<and> authSession (auth (session_step ep e w)) = ep (form w))
         \<and> (ep (form w) = None
            \<longrightarrow> authSession (auth (step ep Submit w)) = None
                \<and> intervalId (auth (step ep Submit w)) = None
                \<and> timers (step ep Submit w) = [])"
proof -
  from assms session_run_idle_no_session [OF initial_idle_no_session, of ep es]
  have s: "authSession (auth w) = None" by simp
  from assms at_most_one_timer [of ep es]
  have t: "timers w = []" by simp
  have sub: "step ep Submit w = handleSubmit ep w"
    by (simp add: effect_identity Let_def)
  have first: "intervalId (auth (session_step ep e w)) \<noteq> None
            \<longrightarrow> e = OnPage Submit \<and> schema (form w) = [] \<and> ep (form w) \<noteq> None
                \<and> authSession (auth (session_step ep e w)) = ep (form w)"
  proof (cases e)
    case (OnPage ev)
    show ?thesis
    proof (cases ev)
      case Mount
      with OnPage assms(2) show ?thesis by (simp add: effect_identity)
    next
      case (Change f v)
      with OnPage assms(2) show ?thesis by (simp add: change_def Let_def)
    next
      case Submit
      with OnPage sub handleSubmit_from_idle [OF s assms(2), of ep] show ?thesis
        by (simp split: if_splits)
    qed
  next
    case Logout
    with assms(2) show ?thesis by (simp add: logout_def clear_timer_def Let_def)
  next
    case (RefreshSuccess x)
    with assms(2) show ?thesis by (simp add: refresh_def)
  next
    case RefreshFailure
    with assms(2) show ?thesis by (simp add: refresh_def)
  qed
  from t handleSubmit_from_idle [OF s assms(2), of ep]
  have second: "ep (form w) = None
            \<longrightarrow> authSession (auth (handleSubmit ep w)) = None
                \<and> intervalId (auth (handleSubmit ep w)) = None
                \<and> timers (handleSubmit ep w) = []"
    by simp
  from first second show ?thesis
    unfolding sub by blast
qed

theorem idle_to_active_needs_success_witness:
  "intervalId (auth filled) = None
   \<and> schema (form filled) = []
   \<and> refusing (form filled) = None
   \<and> authSession (auth (step refusing Submit filled)) = None
   \<and> intervalId (auth (step refusing Submit filled)) = None
   \<and> timers (step refusing Submit filled) = []
   \<and> intervalId (auth (session_step accepting (OnPage Submit) filled)) = Some 1
   \<and> authSession (auth (session_step accepting (OnPage Submit) filled))
       = accepting (form filled)"
proof -
  have r: "filled = session_run refusing (map OnPage (Mount # fill)) initial"
    by (simp only: session_run_OnPage filled_def)
  have a: "filled = session_run accepting (map OnPage (Mount # fill)) initial"
    by (simp add: session_run_OnPage filled_eq input_defs page_defs)
  have i: "intervalId (auth filled) = None"
    by (simp add: filled_eq initial_def)
  have armed: "intervalId (auth (session_step accepting (OnPage Submit) filled)) = Some 1"
    by (simp add: filled_eq input_defs page_defs)
  from idle_to_active_needs_success [OF r i, of "OnPage Submit"]
       idle_to_active_needs_success [OF a i, of "OnPage Submit"] i armed filled_valid
  show ?thesis
    by (simp add: refusing_def)
qed

subsection \<open>Validation\<close>

text \<open>
  C3. A submission in which any of the four fields is empty is rejected before any
  request is made: validation reports an error, \<^verbatim>\<open>onSubmit\<close> is never run (nothing is
  dispatched, nothing is sent to the endpoint), and \<^verbatim>\<open>onError\<close> runs with the errors.
\<close>

theorem empty_field_rejected:
  assumes "grant_type (form w) = '''' \<or> client_id (form w) = ''''
           \<or> client_secret (form w) = '''' \<or> scope (form w) = ''''"
  shows "schema (form w) \<noteq> []
         \<and> handleSubmit ep w = onError (schema (form w)) (w\<lparr>errors := schema (form w)\<rparr>)
         \<and> requests (handleSubmit ep w) = requests w
         \<and> dispatched (handleSubmit ep w) = dispatched w"
proof -
  from assms have invalid: "schema (form w) \<noteq> []"
    by (auto simp: schema_empty_iff)
  then have "handleSubmit ep w = onError (schema (form w)) (w\<lparr>errors := schema (form w)\<rparr>)"
    by (simp add: handleSubmit_def Let_def)
  with invalid show ?thesis
    by (simp add: onError_def)
qed

theorem empty_field_rejected_witness:
  "client_id (form initial) = ''''
   \<and> schema (form initial) \<noteq> []
   \<and> handleSubmit refusing initial
       = onError (schema (form initial)) (initial\<lparr>errors := schema (form initial)\<rparr>)
   \<and> requests (handleSubmit refusing initial) = []
   \<and> dispatched (handleSubmit refusing initial) = []"
proof -
  have h: "grant_type (form initial) = '''' \<or> client_id (form initial) = ''''
           \<or> client_secret (form initial) = '''' \<or> scope (form initial) = ''''"
    by (simp add: initial_def defaultValues_def)
  from empty_field_rejected [OF h, of refusing] show ?thesis
    by (simp add: initial_def defaultValues_def onError_def)
qed

subsection \<open>Clearing\<close>

text \<open>
  C4. Clearing an Idle scheduler (no interval id in the store) is a no-op. The effect of
  the page does not even call \<^verbatim>\<open>clearIntervalId\<close> then; the store's clear leaves the world
  as it is; and clearing twice is clearing once, in every world.
\<close>

theorem clear_when_idle_noop:
  assumes "intervalId (auth w) = None"
  shows "clearIntervalId_effect w = w
         \<and> reducer ep clearIntervalId w = w
         \<and> reducer ep clearIntervalId (reducer ep clearIntervalId v) = reducer ep clearIntervalId v"
  using assms
  by (simp add: clearIntervalId_effect_def truthy_def clear_timer_def split: option.splits)

theorem clear_when_idle_noop_witness:
  "intervalId (auth initial) = None
   \<and> clearIntervalId_effect initial = initial
   \<and> reducer refusing clearIntervalId initial = initial"
proof -
  have h: "intervalId (auth initial) = None"
    by (simp add: initial_def)
  from clear_when_idle_noop [OF h, of refusing initial] h show ?thesis
    by simp
qed

subsection \<open>The grant type\<close>

text \<open>
  C5. Whatever the user does with the page (mounting it, typing, also into the disabled
  field, pressing Login, in any order and number), every request sent to the endpoint and
  every login dispatched carries the grant type \<^verbatim>\<open>client_credentials\<close>.
\<close>

theorem grant_type_fixed:
  "(\<forall>c \<in> set (requests (run ep es initial)). grant_type c = ''client_credentials'')
   \<and> (\<forall>c. loginAction c \<in> set (dispatched (run ep es initial))
         \<longrightarrow> grant_type c = ''client_credentials'')"
proof -
  have f: "grant_type (form initial) = ''client_credentials''"
    by (simp add: initial_def defaultValues_def)
  have r: "\<forall>c \<in> set (requests initial). grant_type c = ''client_credentials''"
    by (simp add: initial_def)
  have d: "\<forall>c. loginAction c \<in> set (dispatched initial)
             \<longrightarrow> grant_type c = ''client_credentials''"
    by (simp add: initial_def)
  from run_grant_type [OF f r d, of ep es] show ?thesis
    by blast
qed

theorem grant_type_fixed_witness:
  "requests (run refusing (Mount # Change GrantType ''password'' # fill @ [Submit]) initial)
     = [\<lparr>grant_type = ''client_credentials'', client_id = ''a'', client_secret = ''b'',
         scope = ''c''\<rparr>]
   \<and> list_all (\<lambda>c. grant_type c = ''client_credentials'')
       (requests (run refusing (Mount # Change GrantType ''password'' # fill @ [Submit]) initial))"
  using grant_type_fixed [of refusing "Mount # Change GrantType ''password'' # fill @ [Submit]"]
  by (simp add: input_defs page_defs)

subsection \<open>A submission that passes validation\<close>



subsection \<open>A submission that fails validation\<close>

text \<open>
  C7. A validation failure touches nothing but the form state and the console: the store,
  the timers, the requests and the dispatched actions are as before, the values of the
  form are kept, the errors of the form are those of the schema, each empty field shows
  its message under it and no other field shows one, and one line is logged.
\<close>

theorem validation_failure_frame:
  assumes "schema (form w) \<noteq> []"
  shows "auth (handleSubmit ep w) = auth w
         \<and> timers (handleSubmit ep w) = timers w
         \<and> next_handle (handleSubmit ep w) = next_handle w
         \<and> requests (handleSubmit ep w) = requests w
         \<and> dispatched (handleSubmit ep w) = dispatched w
         \<and> form (handleSubmit ep w) = form w
         \<and> defaults (handleSubmit ep w) = defaults w
         \<and> errors (handleSubmit ep w) = schema (form w)
         \<and> console (handleSubmit ep w) = console w @ [(''fields error'', schema (form w))]
         \<and> helper_text f (handleSubmit ep w) =
             (if field_value f (form w) = '''' then Some (field_name f @ '' is a required field'')
              else None)"
proof -
  from assms
  have "handleSubmit ep w = onError (schema (form w)) (w\<lparr>errors := schema (form w)\<rparr>)"
    by (simp add: handleSubmit_def Let_def)
  then show ?thesis
    by (simp add: onError_def helper_text_def map_of_schema)
qed

theorem validation_failure_frame_witness:
  "schema (form initial) \<noteq> []
   \<and> auth (handleSubmit refusing initial) = auth initial
   \<and> requests (handleSubmit refusing initial) = []
   \<and> dispatched (handleSubmit refusing initial) = []
   \<and> helper_text ClientId (handleSubmit refusing initial) = Some ''client_id is a required field''
   \<and> helper_text GrantType (handleSubmit refusing initial) = None
   \<and> length (console (handleSubmit refusing initial)) = 1"
proof -
  have h: "schema (form initial) \<noteq> []"
    by (simp add: initial_def defaultValues_def schema_def required_def)
  from validation_failure_frame [OF h, of refusing ClientId]
       validation_failure_frame [OF h, of refusing GrantType] h
  show ?thesis
    by (simp add: initial_def defaultValues_def)
qed

subsection \<open>The reset\<close>

text \<open>
  C8. After a submission that passes validation, once both dispatches are done, the form
  is reset to the values that were submitted: they are the values of the form and its
  new default values, and the form has no error, whether the endpoint accepted the login
  or refused it.
\<close>

theorem reset_to_submitted:
  assumes "schema (form w) = []"
  shows "handleSubmit ep w =
           reset (form w)
             (dispatch ep setIntervalIdAction
               (dispatch ep (loginAction (form w)) (w\<lparr>errors := []\<rparr>)))
         \<and> form (handleSubmit ep w) = form w
         \<and> defaults (handleSubmit ep w) = form w
         \<and> errors (handleSubmit ep w) = []"
  using assms by (simp add: handleSubmit_def onSubmit_def reset_def Let_def)

theorem reset_to_submitted_witness:
  "schema (form filled) = []
   \<and> defaults filled = defaultValues
   \<and> form (handleSubmit refusing filled) = form filled
   \<and> defaults (handleSubmit refusing filled)
       = \<lparr>grant_type = ''client_credentials'', client_id = ''a'', client_secret = ''b'',
          scope = ''c''\<rparr>
   \<and> authSession (auth (handleSubmit refusing filled)) = None
   \<and> form (handleSubmit accepting filled) = form filled
   \<and> defaults (handleSubmit accepting filled)
       = \<lparr>grant_type = ''client_credentials'', client_id = ''a'', client_secret = ''b'',
          scope = ''c''\<rparr>
   \<and> authSession (auth (handleSubmit accepting filled))
       = Some \<lparr>accessToken = ''t'', expiresIn = 3000\<rparr>"
  using reset_to_submitted [OF filled_valid, of refusing]
        reset_to_submitted [OF filled_valid, of accepting] filled_valid
  by (simp add: filled_eq input_defs page_defs)

subsection \<open>The untouched form\<close>

text \<open>
  C9. A form that still holds the default values cannot be submitted: the three empty
  fields fail the schema, so pressing Login runs \<^verbatim>\<open>onError\<close>; nothing is dispatched,
  nothing is sent, and the store and the timers are as before.
\<close>

theorem fresh_form_not_submitted:
  assumes "form w = defaultValues"
  shows "schema (form w) =
           [(ClientId, ''client_id is a required field''),
            (ClientSecret, ''client_secret is a required field''),
            (Scope, ''scope is a required field'')]
         \<and> handleSubmit ep w = onError (schema (form w)) (w\<lparr>errors := schema (form w)\<rparr>)
         \<and> dispatched (step ep Submit w) = dispatched w
         \<and> requests (step ep Submit w) = requests w
         \<and> auth (step ep Submit w) = auth w
         \<and> timers (step ep Submit w) = timers w"
proof -
  from assms have s: "schema (form w) =
           [(ClientId, ''client_id is a required field''),
            (ClientSecret, ''client_secret is a required field''),
            (Scope, ''scope is a required field'')]"
    by (simp add: schema_def required_def defaultValues_def)
  then have h: "handleSubmit ep w = onError (schema (form w)) (w\<lparr>errors := schema (form w)\<rparr>)"
    by (simp add: handleSubmit_def Let_def)
  have "step ep Submit w = handleSubmit ep w"
    by (simp add: effect_identity Let_def)
  with s h show ?thesis
    by (simp add: onError_def)
qed

theorem fresh_form_not_submitted_witness:
  "form (step refusing Mount initial) = defaultValues
   \<and> dispatched (step refusing Submit (step refusing Mount initial)) = []
   \<and> requests (step refusing Submit (step refusing Mount initial)) = []
   \<and> timers (step refusing Submit (step refusing Mount initial)) = []"
proof -
  have h: "form (step refusing Mount initial) = defaultValues"
    by (simp add: effect_identity)
  from fresh_form_not_submitted [OF h, of refusing] h show ?thesis
    by (simp add: effect_identity initial_def onError_def Let_def)
qed

subsection \<open>The effect and the store\<close>

text \<open>
  C10. The effect of the page leaves the auth store as it is: \<^verbatim>\<open>clearIntervalId()\<close> is a
  bare call whose action is never dispatched, so in a render with \<^verbatim>\<open>store.intervalId\<close> set
  the store, and with it \<^verbatim>\<open>store.intervalId\<close>, the live timers and the dispatched actions
  are the same after the effect as before.
\<close>

theorem effect_leaves_store:
  assumes "intervalId (auth w) \<noteq> None"
  shows "auth (clearIntervalId_effect w) = auth w
         \<and> timers (clearIntervalId_effect w) = timers w
         \<and> dispatched (clearIntervalId_effect w) = dispatched w"
  using assms by (simp add: clearIntervalId_effect_def)

theorem effect_leaves_store_witness:
  "intervalId (auth logged_in) = Some 1
   \<and> intervalId (auth (clearIntervalId_effect logged_in)) = Some 1
   \<and> timers (clearIntervalId_effect logged_in) = [1]
   \<and> clearIntervalId \<notin> set (dispatched (clearIntervalId_effect logged_in))"
proof -
  have v: "intervalId (auth logged_in) = Some 1"
    by (simp add: logged_in_def filled_eq input_defs page_defs)
  then have h: "intervalId (auth logged_in) \<noteq> None"
    by simp
  have t: "timers logged_in = [1]"
    by (simp add: logged_in_def filled_eq input_defs page_defs)
  have d: "clearIntervalId \<notin> set (dispatched logged_in)"
    by (simp add: logged_in_def filled_eq input_defs page_defs)
  from effect_leaves_store [OF h] v t d show ?thesis
    by simp
qed

end
